theory Spec2Isabelle
  imports Main
begin

section \<open>Python values used by \<open>rag_functions.py\<close>\<close>

text \<open>
  A Python \<open>str\<close> is a sequence of Unicode code points and a \<open>bytes\<close> object a
  sequence of octets. Isabelle's \<open>char\<close> is an octet, so \<open>bytes\<close> is a
  \<open>char list\<close>, and \<open>str\<close> is a list of code points (natural numbers).
  \<open>ascii\<close> reads an ASCII literal as a \<open>str\<close>.
\<close>

type_synonym str = "nat list"
type_synonym bytes = "char list"

definition ascii :: "string \<Rightarrow> str" where
  "ascii s = map of_char s"

text \<open>The exceptions the modelled code can meet. \<open>External\<close> stands for whatever a
  third-party library or the operating system raises; all of them derive from
  \<open>Exception\<close>, so \<open>except Exception\<close> catches every value of this type.\<close>

datatype exn =
    IndexError
  | ValueError
  | UnicodeDecodeError
  | UnicodeEncodeError
  | External string

text \<open>\<open>xs[i]\<close> for a non-negative literal index: out of range raises \<open>IndexError\<close>.\<close>

definition py_index :: "'a list \<Rightarrow> nat \<Rightarrow> exn + 'a" where
  "py_index xs i = (if i < length xs then Inr (xs ! i) else Inl IndexError)"

text \<open>\<open>s.rsplit(sep, 1)\<close> for a one-character separator: the string is cut at the
  last occurrence of \<open>sep\<close>; without an occurrence the result is \<open>[s]\<close>.
  \<open>rsplit_last\<close> finds the cut.\<close>

fun rsplit_last :: "'a \<Rightarrow> 'a list \<Rightarrow> ('a list \<times> 'a list) option" where
  "rsplit_last sep [] = None"
| "rsplit_last sep (c # cs) =
     (case rsplit_last sep cs of
        Some (a, b) \<Rightarrow> Some (c # a, b)
      | None \<Rightarrow> (if c = sep then Some ([], cs) else None))"

definition rsplit1 :: "'a \<Rightarrow> 'a list \<Rightarrow> 'a list list" where
  "rsplit1 sep s = (case rsplit_last sep s of None \<Rightarrow> [s] | Some (a, b) \<Rightarrow> [a, b])"

text \<open>\<open>str.lower()\<close>. The ASCII letters \<open>A\<close>..\<open>Z\<close> (65..90) move to \<open>a\<close>..\<open>z\<close>;
  every other code point is left as it is. Python also maps cased code points outside
  ASCII; the code only compares lowered strings with ASCII literals that contain none
  of the ASCII letters such a mapping can produce (\<open>i\<close> and \<open>k\<close>), so the comparisons
  of this file come out the same.\<close>

definition lower_cp :: "nat \<Rightarrow> nat" where
  "lower_cp c = (if 65 \<le> c \<and> c \<le> 90 then c + 32 else c)"

definition lower :: "str \<Rightarrow> str" where
  "lower s = map lower_cp s"

abbreviation dot :: nat where
  "dot \<equiv> 46"

section \<open>\<open>allowed_files\<close>\<close>

definition allowed_files_list :: "str list" where
  "allowed_files_list = [ascii ''pdf'', ascii ''txt'', ascii ''pptx'']"

text \<open>
  \<^verbatim>\<open>return "." in filename and filename.rsplit(".", 1)[1].lower() in allowed_files_list\<close>
  The right operand of \<open>and\<close> is evaluated only when the left one is true.
\<close>

definition allowed_files :: "str \<Rightarrow> exn + bool" where
  "allowed_files filename =
     (if dot \<in> set filename then
        (case py_index (rsplit1 dot filename) 1 of
           Inl e \<Rightarrow> Inl e
         | Inr suffix \<Rightarrow> Inr (lower suffix \<in> set allowed_files_list))
      else Inr False)"


section \<open>Byte streams and text\<close>

text \<open>\<open>bytes.decode("utf-8")\<close> in strict mode: the well-formed byte sequences of the
  Unicode standard (no overlong form, no surrogate, nothing above U+10FFFF); anything
  else raises \<open>UnicodeDecodeError\<close>.\<close>

definition cont :: "nat \<Rightarrow> bool" where
  "cont b \<longleftrightarrow> 128 \<le> b \<and> b \<le> 191"

fun utf8_decode :: "nat list \<Rightarrow> str option" where
  "utf8_decode [] = Some []"
| "utf8_decode (b0 # bs) =
     (if b0 < 128 then map_option ((#) b0) (utf8_decode bs)
      else if 194 \<le> b0 \<and> b0 \<le> 223 then
        (case bs of
           b1 # r \<Rightarrow>
             if cont b1
             then map_option ((#) ((b0 - 192) * 64 + (b1 - 128))) (utf8_decode r)
             else None
         | _ \<Rightarrow> None)
      else if 224 \<le> b0 \<and> b0 \<le> 239 then
        (case bs of
           b1 # b2 # r \<Rightarrow>
             if (if b0 = 224 then 160 else 128) \<le> b1
                \<and> b1 \<le> (if b0 = 237 then 159 else 191) \<and> cont b2
             then map_option
                    ((#) ((b0 - 224) * 4096 + (b1 - 128) * 64 + (b2 - 128)))
                    (utf8_decode r)
             else None
         | _ \<Rightarrow> None)
      else if 240 \<le> b0 \<and> b0 \<le> 244 then
        (case bs of
           b1 # b2 # b3 # r \<Rightarrow>
             if (if b0 = 240 then 144 else 128) \<le> b1
                \<and> b1 \<le> (if b0 = 244 then 143 else 191) \<and> cont b2 \<and> cont b3
             then map_option
                    ((#) ((b0 - 240) * 262144 + (b1 - 128) * 4096
                          + (b2 - 128) * 64 + (b3 - 128)))
                    (utf8_decode r)
             else None
         | _ \<Rightarrow> None)
      else None)"

definition decode :: "bytes \<Rightarrow> exn + str" where
  "decode b =
     (case utf8_decode (map of_char b) of
        None \<Rightarrow> Inl UnicodeDecodeError
      | Some s \<Rightarrow> Inr s)"

text \<open>\<open>str.splitlines()\<close>: a line ends at \<open>\n\<close>, \<open>\r\<close>, \<open>\r\n\<close>, \<open>\v\<close>, \<open>\f\<close>,
  \<open>\x1c\<close>, \<open>\x1d\<close>, \<open>\x1e\<close>, \<open>\x85\<close>, U+2028 or U+2029; the line ends are not
  kept, and no empty line follows the last line end. \<open>cur\<close> is the line being read.\<close>

definition is_linebreak :: "nat \<Rightarrow> bool" where
  "is_linebreak c \<longleftrightarrow> c \<in> set [10, 11, 12, 13, 28, 29, 30, 133, 8232, 8233]"

fun splitlines_from :: "str \<Rightarrow> str \<Rightarrow> str list" where
  "splitlines_from cur [] = (if cur = [] then [] else [cur])"
| "splitlines_from cur (c # cs) =
     (if c = 13 then
        (case cs of
           [] \<Rightarrow> [cur]
         | d # ds \<Rightarrow>
             if d = 10 then cur # splitlines_from [] ds
             else cur # splitlines_from [] (d # ds))
      else if is_linebreak c then cur # splitlines_from [] cs
      else splitlines_from (cur @ [c]) cs)"

definition splitlines :: "str \<Rightarrow> str list" where
  "splitlines s = splitlines_from [] s"

text \<open>An uploaded file is a named in-memory byte stream (\<open>BytesIO\<close>): \<open>read()\<close>
  returns the bytes from the current position to the end and leaves the position at
  the end, \<open>seek(0)\<close> moves it to the start, and both raise \<open>ValueError\<close> on a closed
  stream.\<close>

record uploaded_file =
  name :: str
  content :: bytes
  pos :: nat
  closed :: bool

definition read :: "uploaded_file \<Rightarrow> exn + (bytes \<times> uploaded_file)" where
  "read f =
     (if closed f then Inl ValueError
      else Inr (drop (pos f) (content f),
                f\<lparr>pos := max (pos f) (length (content f))\<rparr>))"

definition seek0 :: "uploaded_file \<Rightarrow> exn + uploaded_file" where
  "seek0 f = (if closed f then Inl ValueError else Inr (f\<lparr>pos := 0\<rparr>))"

section \<open>The libraries and the environment\<close>

text \<open>What the parsers and the remote service hand back, as far as the code looks at
  it. A PDF reader object answers \<open>len(reader.pages)\<close>, which PyPDF2 computes on
  demand and which can raise. A presentation is its slides, a slide its shapes, and a
  shape either has a \<open>text\<close> attribute or not. An analysis result is its pages, a page
  the \<open>content\<close> of its lines.\<close>

datatype pdf_reader = Pdf_reader (pages_len: "exn + nat")

datatype shape = Shape_with_text str | Shape_without_text

type_synonym slide = "shape list"
type_synonym presentation = "slide list"
type_synonym page = "str list"
type_synonym analyze_result = "page list"

text \<open>The third-party functions and the operating system are parameters of the model:
  \<^item> \<open>getenv\<close>: the process environment;
  \<^item> \<open>secure_filename\<close>: werkzeug's file name sanitiser;
  \<^item> \<open>PdfReader\<close>, \<open>Presentation\<close>: the parsers, on the bytes they are given;
  \<^item> \<open>zip_tell\<close>: where \<open>Presentation\<close> leaves the position of the stream it was
    given (it reads the archive by absolute offsets);
  \<^item> \<open>analyze_document\<close>: \<open>begin_analyze_document("prebuilt-read", bytes).result()\<close>;
  \<^item> \<open>makedirs_error\<close>: the exception of \<open>os.makedirs(dir, exist_ok=True)\<close>, if any;
  \<^item> \<open>open_error\<close>: the exception of \<open>open(path, "w", encoding="utf-8")\<close>, if any.\<close>

record libs =
  getenv :: "str \<Rightarrow> str option"
  secure_filename :: "str \<Rightarrow> str"
  PdfReader :: "bytes \<Rightarrow> exn + pdf_reader"
  Presentation :: "bytes \<Rightarrow> exn + presentation"
  zip_tell :: "bytes \<Rightarrow> nat"
  analyze_document :: "bytes \<Rightarrow> exn + analyze_result"
  makedirs_error :: "str \<Rightarrow> exn option"
  open_error :: "str \<Rightarrow> exn option"

text \<open>One constructor for each call of the logger in the file.\<close>

datatype log_entry =
    Error_unsupported_extension str
  | Error_checking_file str exn
  | Error_credentials_missing
  | Info_temp_dir_ready str
  | Info_processing_pdf str
  | Info_processing_txt str
  | Info_processing_pptx str
  | Warning_unsupported_type str
  | Info_saved str
  | Error_processing_file str exn

section \<open>\<open>file_check_num\<close>\<close>

text \<open>The body of the \<open>try\<close> block: the value returned or the exception raised, the
  file as the block leaves it, and what was logged.\<close>

definition file_check_try ::
  "libs \<Rightarrow> uploaded_file \<Rightarrow> str \<Rightarrow> (exn + int) \<times> uploaded_file \<times> log_entry list" where
  "file_check_try w f file_ext =
     (if file_ext = ascii ''pdf'' then
        (case read f of
           Inl e \<Rightarrow> (Inl e, f, [])
         | Inr (pdf_bytes, f1) \<Rightarrow>
             (case PdfReader w pdf_bytes of
                Inl e \<Rightarrow> (Inl e, f1, [])
              | Inr pdf_reader \<Rightarrow>
                  (case seek0 f1 of
                     Inl e \<Rightarrow> (Inl e, f1, [])
                   | Inr f2 \<Rightarrow>
                       (case pages_len pdf_reader of
                          Inl e \<Rightarrow> (Inl e, f2, [])
                        | Inr n \<Rightarrow> (Inr (int n), f2, [])))))
      else if file_ext = ascii ''pptx'' then
        (case read f of
           Inl e \<Rightarrow> (Inl e, f, [])
         | Inr (pptx_bytes, f1) \<Rightarrow>
             (case Presentation w pptx_bytes of
                Inl e \<Rightarrow> (Inl e, f1, [])
              | Inr pptx \<Rightarrow>
                  (case seek0 f1 of
                     Inl e \<Rightarrow> (Inl e, f1, [])
                   | Inr f2 \<Rightarrow> (Inr (int (length pptx)), f2, []))))
      else if file_ext = ascii ''txt'' then
        (case read f of
           Inl e \<Rightarrow> (Inl e, f, [])
         | Inr (b, f1) \<Rightarrow>
             (case decode b of
                Inl e \<Rightarrow> (Inl e, f1, [])
              | Inr s \<Rightarrow>
                  (let num = int (length (splitlines s)) in
                   case seek0 f1 of
                     Inl e \<Rightarrow> (Inl e, f1, [])
                   | Inr f2 \<Rightarrow> (Inr num, f2, []))))
      else (Inr (- 1), f, [Error_unsupported_extension file_ext]))"

text \<open>The extension is taken before the \<open>try\<close>, so the \<open>IndexError\<close> of a name
  without a dot leaves the function; an exception of the block is logged and turned
  into \<open>-1\<close>.\<close>

definition file_check_num ::
  "libs \<Rightarrow> uploaded_file \<Rightarrow> (exn + int) \<times> uploaded_file \<times> log_entry list" where
  "file_check_num w uploaded_file =
     (case py_index (rsplit1 dot (name uploaded_file)) 1 of
        Inl e \<Rightarrow> (Inl e, uploaded_file, [])
      | Inr suffix \<Rightarrow>
          (case file_check_try w uploaded_file (lower suffix) of
             (Inl e, f', logged) \<Rightarrow>
               (Inr (- 1), f', logged @ [Error_checking_file (name uploaded_file) e])
           | (Inr n, f', logged) \<Rightarrow> (Inr n, f', logged)))"

section \<open>Paths and the file system\<close>

text \<open>\<open>s.rfind(c)\<close> for one character: the index of its last occurrence, or \<open>-1\<close>.\<close>

definition rfind :: "nat \<Rightarrow> str \<Rightarrow> int" where
  "rfind c s = (case rsplit_last c s of None \<Rightarrow> - 1 | Some (a, b) \<Rightarrow> int (length a))"

abbreviation slash :: nat where
  "slash \<equiv> 47"

text \<open>\<open>os.path.splitext\<close> (POSIX): the extension starts at the last dot of the last
  path component, unless only dots come before it in that component.
  \<^verbatim>\<open>
    sepIndex = p.rfind(sep)
    dotIndex = p.rfind(extsep)
    if dotIndex > sepIndex:
        filenameIndex = sepIndex + 1
        while filenameIndex < dotIndex:
            if p[filenameIndex:filenameIndex+1] != extsep:
                return p[:dotIndex], p[dotIndex:]
            filenameIndex += 1
    return p, p[:0]
  \<close>\<close>

definition splitext :: "str \<Rightarrow> str \<times> str" where
  "splitext p =
     (let sepIndex = rfind slash p; dotIndex = rfind dot p in
      if dotIndex > sepIndex
         \<and> list_ex (\<lambda>c. c \<noteq> dot)
              (take (nat dotIndex - nat (sepIndex + 1)) (drop (nat (sepIndex + 1)) p))
      then (take (nat dotIndex) p, drop (nat dotIndex) p)
      else (p, []))"

text \<open>\<open>os.path.join(a, b)\<close> (POSIX) for two components.\<close>

definition join :: "str \<Rightarrow> str \<Rightarrow> str" where
  "join a b =
     (if b \<noteq> [] \<and> hd b = slash then b
      else if a = [] \<or> last a = slash then a @ b
      else a @ [slash] @ b)"

text \<open>A code point that UTF-8 cannot encode: a surrogate.\<close>

definition encodable :: "str \<Rightarrow> bool" where
  "encodable s \<longleftrightarrow> list_all (\<lambda>c. \<not> (55296 \<le> c \<and> c \<le> 57343)) s"

text \<open>The file system maps a path to the text of the file there.
  \<^verbatim>\<open>
    with open(file_path, "w", encoding="utf-8") as f:
        f.write(extracted_content)
  \<close>
  \<open>open\<close> creates or empties the file; \<open>write\<close> encodes the whole text first, so a
  text that cannot be encoded leaves the file empty. A line end is written as it is
  (POSIX). Failures of the device while writing are not modelled.\<close>

definition write_text ::
  "libs \<Rightarrow> (str \<rightharpoonup> str) \<Rightarrow> str \<Rightarrow> str \<Rightarrow> exn option \<times> (str \<rightharpoonup> str)" where
  "write_text w files file_path text =
     (case open_error w file_path of
        Some e \<Rightarrow> (Some e, files)
      | None \<Rightarrow>
          if encodable text then (None, files(file_path \<mapsto> text))
          else (Some UnicodeEncodeError, files(file_path \<mapsto> [])))"

section \<open>\<open>extract_contents_from_doc\<close>\<close>

text \<open>The uploaded files are objects: the batch is a list of references, and the state
  holds the object behind every reference, the file system and the log.\<close>

type_synonym ref = nat

record state =
  objs :: "ref \<Rightarrow> uploaded_file"
  fs :: "str \<rightharpoonup> str"
  logged :: "log_entry list"

definition log_add :: "log_entry \<Rightarrow> state \<Rightarrow> state" where
  "log_add e st = st\<lparr>logged := logged st @ [e]\<rparr>"

abbreviation newline :: nat where
  "newline \<equiv> 10"

text \<open>
  \<^verbatim>\<open>
    extracted_content = ""
    for page in result.pages:
        for line in page.lines:
            extracted_content += line.content + "\n"
  \<close>\<close>

definition pdf_text :: "analyze_result \<Rightarrow> str" where
  "pdf_text result =
     fold (\<lambda>page extracted_content.
             fold (\<lambda>line extracted_content. extracted_content @ (line @ [newline]))
               page extracted_content)
       result []"

text \<open>
  \<^verbatim>\<open>
    extracted_content = ""
    for slide in presentation.slides:
        for shape in slide.shapes:
            if hasattr(shape, "text"):
                extracted_content += shape.text + "\n"
  \<close>\<close>

definition pptx_text :: "presentation \<Rightarrow> str" where
  "pptx_text presentation =
     fold (\<lambda>slide extracted_content.
             fold (\<lambda>shape extracted_content.
                     case shape of
                       Shape_with_text t \<Rightarrow> extracted_content @ (t @ [newline])
                     | Shape_without_text \<Rightarrow> extracted_content)
               slide extracted_content)
       presentation []"

text \<open>The dispatch on the extension, up to the \<open>else\<close> branch: the extracted text, or
  \<open>None\<close> for the \<open>continue\<close> of an unsupported type, or the exception raised.\<close>

definition extract_text ::
  "libs \<Rightarrow> state \<Rightarrow> ref \<Rightarrow> str \<Rightarrow> (exn + str option) \<times> state" where
  "extract_text w st file ext =
     (let f = objs st file in
      if ext = ascii ''.pdf'' then
        (case read f of
           Inl e \<Rightarrow> (Inl e, st)
         | Inr (file_content, f1) \<Rightarrow>
             (let st1 = log_add (Info_processing_pdf (name f))
                          (st\<lparr>objs := (objs st)(file := f1)\<rparr>) in
              case analyze_document w file_content of
                Inl e \<Rightarrow> (Inl e, st1)
              | Inr result \<Rightarrow> (Inr (Some (pdf_text result)), st1)))
      else if ext = ascii ''.txt'' then
        (let st1 = log_add (Info_processing_txt (name f)) st in
         case read f of
           Inl e \<Rightarrow> (Inl e, st1)
         | Inr (b, f1) \<Rightarrow>
             (let st2 = st1\<lparr>objs := (objs st1)(file := f1)\<rparr> in
              case decode b of
                Inl e \<Rightarrow> (Inl e, st2)
              | Inr extracted_content \<Rightarrow> (Inr (Some extracted_content), st2)))
      else if ext = ascii ''.pptx'' then
        (let st1 = log_add (Info_processing_pptx (name f)) st in
         if closed f then (Inl ValueError, st1)
         else
           (let st2 = st1\<lparr>objs := (objs st1)(file := f\<lparr>pos := zip_tell w (content f)\<rparr>)\<rparr> in
            case Presentation w (content f) of
              Inl e \<Rightarrow> (Inl e, st2)
            | Inr presentation \<Rightarrow> (Inr (Some (pptx_text presentation)), st2)))
      else (Inr None, log_add (Warning_unsupported_type (name f)) st))"

text \<open>What one turn of the loop does with its file.\<close>

datatype outcome = Written str | Skipped | Failed exn

definition process_file :: "libs \<Rightarrow> str \<Rightarrow> state \<Rightarrow> ref \<Rightarrow> outcome \<times> state" where
  "process_file w temp_dir st file =
     (let file_name = name (objs st file);
          filename = secure_filename w file_name;
          (base, ext0) = splitext filename;
          ext = lower ext0
      in case extract_text w st file ext of
           (Inl e, st1) \<Rightarrow> (Failed e, log_add (Error_processing_file file_name e) st1)
         | (Inr None, st1) \<Rightarrow> (Skipped, st1)
         | (Inr (Some extracted_content), st1) \<Rightarrow>
             (let extracted_filename = base @ ascii ''_extracted.txt'';
                  file_path = join temp_dir extracted_filename
              in case write_text w (fs st1) file_path extracted_content of
                   (Some e, files) \<Rightarrow>
                     (Failed e,
                      log_add (Error_processing_file file_name e) (st1\<lparr>fs := files\<rparr>))
                 | (None, files) \<Rightarrow>
                     (Written file_path,
                      log_add (Info_saved file_path) (st1\<lparr>fs := files\<rparr>))))"

text \<open>The \<open>for\<close> loop, with the list it appends to.\<close>

fun extract_loop ::
  "libs \<Rightarrow> str \<Rightarrow> ref list \<Rightarrow> state \<Rightarrow> str list \<Rightarrow> str list \<times> state" where
  "extract_loop w temp_dir [] st extracted_file_paths = (extracted_file_paths, st)"
| "extract_loop w temp_dir (file # files) st extracted_file_paths =
     (case process_file w temp_dir st file of
        (Written file_path, st') \<Rightarrow>
          extract_loop w temp_dir files st' (extracted_file_paths @ [file_path])
      | (_, st') \<Rightarrow> extract_loop w temp_dir files st' extracted_file_paths)"

text \<open>\<open>not x\<close> for the value of \<open>os.getenv\<close>: \<open>None\<close> or the empty string.\<close>

definition falsy :: "str option \<Rightarrow> bool" where
  "falsy v \<longleftrightarrow> v = None \<or> v = Some []"

text \<open>The function raises only what \<open>os.makedirs\<close> raises: the client constructors take
  the two non-empty strings without a check that could fail.\<close>

definition extract_contents_from_doc ::
  "libs \<Rightarrow> state \<Rightarrow> ref list \<Rightarrow> str \<Rightarrow> (exn + str list) \<times> state" where
  "extract_contents_from_doc w st files temp_dir =
     (let DI_ENDPOINT = getenv w (ascii ''DOCUMENT_INTELLIGENCE_ENDPOINT'');
          DOCUMENT_INTELLIGENCE_KEY =
            getenv w (ascii ''DOCUMENT_INTELLIGENCE_SUBSCRIPTION_KEY'')
      in if falsy DI_ENDPOINT \<or> falsy DOCUMENT_INTELLIGENCE_KEY
         then (Inr [], log_add Error_credentials_missing st)
         else
           (case makedirs_error w temp_dir of
              Some e \<Rightarrow> (Inl e, st)
            | None \<Rightarrow>
                (case extract_loop w temp_dir files
                        (log_add (Info_temp_dir_ready temp_dir) st) [] of
                   (extracted_file_paths, st') \<Rightarrow> (Inr extracted_file_paths, st'))))"

text \<open>The outcomes of the turns of the loop, one for each file of the batch, each turn
  starting in the state the one before left.\<close>

fun outcomes :: "libs \<Rightarrow> str \<Rightarrow> ref list \<Rightarrow> state \<Rightarrow> outcome list" where
  "outcomes w temp_dir [] st = []"
| "outcomes w temp_dir (file # files) st =
     (case process_file w temp_dir st file of
        (r, st') \<Rightarrow> r # outcomes w temp_dir files st')"

section \<open>A sample environment\<close>

text \<open>The worked examples run in this environment: both credentials are set, the
  sanitiser returns the (already safe) names of the examples unchanged, the directory
  and the files can be written, and no parser and no service is available.\<close>

definition sample_libs :: libs where
  "sample_libs =
     \<lparr>getenv = (\<lambda>k. Some (ascii ''configured'')),
      secure_filename = (\<lambda>s. s),
      PdfReader = (\<lambda>b. Inl (External ''not a PDF'')),
      Presentation = (\<lambda>b. Inl (External ''not a package'')),
      zip_tell = (\<lambda>b. length b),
      analyze_document = (\<lambda>b. Inl (External ''no service'')),
      makedirs_error = (\<lambda>d. None),
      open_error = (\<lambda>p. None)\<rparr>"

definition upload :: "string \<Rightarrow> bytes \<Rightarrow> uploaded_file" where
  "upload n b = \<lparr>name = ascii n, content = b, pos = 0, closed = False\<rparr>"

text \<open>A state in which every reference is the file \<open>f\<close>, no file has been written and
  nothing has been logged.\<close>

definition fresh_state :: "uploaded_file \<Rightarrow> state" where
  "fresh_state f = \<lparr>objs = (\<lambda>r. f), fs = Map.empty, logged = []\<rparr>"

text \<open>The path an outcome adds to the returned list, if any.\<close>

fun written_path :: "outcome \<Rightarrow> str option" where
  "written_path (Written file_path) = Some file_path"
| "written_path Skipped = None"
| "written_path (Failed e) = None"

text \<open>Four uploads: a text file, a picture, a text file that is not UTF-8, and another
  text file.\<close>

definition sample_batch :: "ref \<Rightarrow> uploaded_file" where
  "sample_batch r =
     (if r = 0 then upload ''notes.txt'' ''hello''
      else if r = 1 then upload ''image.png'' ''PNG''
      else if r = 2 then upload ''bad.txt'' [CHR 0xFF]
      else upload ''b.txt'' ''bye'')"

section \<open>\<open>chunk_document\<close> and the text splitter\<close>

text \<open>\<open>chunk_document\<close> builds a \<open>RecursiveCharacterTextSplitter\<close> and calls its
  \<open>split_text\<close>. The splitter is langchain's, a library the repository imports; its code
  is not part of the repository. The definitions of this section follow the library's
  source (\<open>text_splitter.py\<close>: \<open>TextSplitter.__init__\<close>, \<open>_join_docs\<close>,
  \<open>_merge_splits\<close>, \<open>_split_text_with_regex\<close>,
  \<open>RecursiveCharacterTextSplitter._split_text\<close>) for what this call uses: the defaults
  \<open>keep_separator=True\<close>, \<open>is_separator_regex=False\<close> and whitespace stripping,
  \<open>length_function=len\<close>, and separators of one character each, so that a separator is
  a code point and matching the escaped pattern is finding the character. The
  library's warning about an oversized chunk is not modelled.\<close>

text \<open>\<open>str.strip()\<close> removes leading and trailing whitespace, the code points for which
  \<open>str.isspace\<close> holds.\<close>

definition is_space :: "nat \<Rightarrow> bool" where
  "is_space c \<longleftrightarrow>
     (9 \<le> c \<and> c \<le> 13) \<or> (28 \<le> c \<and> c \<le> 32) \<or> c = 133 \<or> c = 160 \<or> c = 5760
     \<or> (8192 \<le> c \<and> c \<le> 8202) \<or> c = 8232 \<or> c = 8233 \<or> c = 8239 \<or> c = 8287
     \<or> c = 12288"

definition strip :: "str \<Rightarrow> str" where
  "strip s = rev (dropWhile is_space (rev (dropWhile is_space s)))"

text \<open>\<open>separator.join(docs)\<close>.\<close>

fun str_join :: "str \<Rightarrow> str list \<Rightarrow> str" where
  "str_join sep [] = []"
| "str_join sep [d] = d"
| "str_join sep (d # ds) = d @ sep @ str_join sep ds"

text \<open>The splitter object keeps the three arguments. The constructor refuses an overlap
  larger than the chunk size:
  \<^verbatim>\<open>
    if chunk_overlap > chunk_size:
        raise ValueError(...)
  \<close>\<close>

record text_splitter =
  the_chunk_size :: int
  the_chunk_overlap :: int
  the_separators :: "nat list"

definition RecursiveCharacterTextSplitter ::
  "int \<Rightarrow> int \<Rightarrow> nat list \<Rightarrow> exn + text_splitter" where
  "RecursiveCharacterTextSplitter chunk_size chunk_overlap separators =
     (if chunk_overlap > chunk_size then Inl ValueError
      else Inr \<lparr>the_chunk_size = chunk_size, the_chunk_overlap = chunk_overlap,
                the_separators = separators\<rparr>)"

text \<open>
  \<^verbatim>\<open>
    text = separator.join(docs)
    text = text.strip()
    return None if text == "" else text
  \<close>\<close>

definition join_docs :: "str list \<Rightarrow> str \<Rightarrow> str option" where
  "join_docs docs separator =
     (let text = strip (str_join separator docs) in
      if text = [] then None else Some text)"

text \<open>The inner loop of \<open>_merge_splits\<close>, which drops pieces from the front of
  \<open>current_doc\<close>; \<open>current_doc[0]\<close> on the empty list raises.
  \<^verbatim>\<open>
    while total > self._chunk_overlap or (
        total + _len + (separator_len if len(current_doc) > 0 else 0) > self._chunk_size
        and total > 0):
        total -= len(current_doc[0]) + (separator_len if len(current_doc) > 1 else 0)
        current_doc = current_doc[1:]
  \<close>\<close>

fun pop_while ::
  "text_splitter \<Rightarrow> int \<Rightarrow> int \<Rightarrow> str list \<Rightarrow> int \<Rightarrow> exn + (str list \<times> int)" where
  "pop_while sp len separator_len [] total_len =
     (if total_len > the_chunk_overlap sp \<or> (total_len + len > the_chunk_size sp \<and> total_len > 0)
      then Inl IndexError
      else Inr ([], total_len))"
| "pop_while sp len separator_len (d0 # current_doc) total_len =
     (if total_len > the_chunk_overlap sp
         \<or> (total_len + len + separator_len > the_chunk_size sp \<and> total_len > 0)
      then pop_while sp len separator_len current_doc
             (total_len - (int (length d0) + (if current_doc \<noteq> [] then separator_len else 0)))
      else Inr (d0 # current_doc, total_len))"

text \<open>One turn of the loop of \<open>_merge_splits\<close> over the pieces, on the state
  \<open>(docs, current_doc, total)\<close>, and the loop with what follows it.
  \<^verbatim>\<open>
    for d in splits:
        _len = len(d)
        if total + _len + (separator_len if len(current_doc) > 0 else 0) > self._chunk_size:
            if len(current_doc) > 0:
                doc = self._join_docs(current_doc, separator)
                if doc is not None:
                    docs.append(doc)
                while ...
        current_doc.append(d)
        total += _len + (separator_len if len(current_doc) > 1 else 0)
    doc = self._join_docs(current_doc, separator)
    if doc is not None:
        docs.append(doc)
    return docs
  \<close>\<close>

definition merge_step ::
  "text_splitter \<Rightarrow> str \<Rightarrow> str \<Rightarrow> str list \<times> str list \<times> int
     \<Rightarrow> exn + (str list \<times> str list \<times> int)" where
  "merge_step sp separator d st =
     (case st of (docs, current_doc, total_len) \<Rightarrow>
      let separator_len = int (length separator);
          len = int (length d)
      in if total_len + len + (if current_doc \<noteq> [] then separator_len else 0)
              > the_chunk_size sp
            \<and> current_doc \<noteq> []
         then
           (case pop_while sp len separator_len current_doc total_len of
              Inl e \<Rightarrow> Inl e
            | Inr (current_doc1, total1) \<Rightarrow>
                Inr (case join_docs current_doc separator of
                       None \<Rightarrow> docs
                     | Some doc \<Rightarrow> docs @ [doc],
                     current_doc1 @ [d],
                     total1 + len + (if current_doc1 \<noteq> [] then separator_len else 0)))
         else Inr (docs, current_doc @ [d],
                   total_len + len + (if current_doc \<noteq> [] then separator_len else 0)))"

fun merge_loop ::
  "text_splitter \<Rightarrow> str \<Rightarrow> str list \<Rightarrow> str list \<times> str list \<times> int \<Rightarrow> exn + str list" where
  "merge_loop sp separator [] st =
     (case st of (docs, current_doc, total_len) \<Rightarrow>
        Inr (case join_docs current_doc separator of
               None \<Rightarrow> docs
             | Some doc \<Rightarrow> docs @ [doc]))"
| "merge_loop sp separator (d # splits) st =
     (case merge_step sp separator d st of
        Inl e \<Rightarrow> Inl e
      | Inr st1 \<Rightarrow> merge_loop sp separator splits st1)"

definition merge_splits :: "text_splitter \<Rightarrow> str list \<Rightarrow> str \<Rightarrow> exn + str list" where
  "merge_splits sp splits separator = merge_loop sp separator splits ([], [], 0)"

text \<open>\<open>_split_text_with_regex(text, re.escape(separator), keep_separator=True)\<close>: the
  text is cut before every occurrence of the separator, which stays at the start of
  the piece after it, and empty pieces are dropped. \<open>cur\<close> is the piece being read.\<close>

fun split_keep :: "nat \<Rightarrow> str \<Rightarrow> str \<Rightarrow> str list" where
  "split_keep sep cur [] = [cur]"
| "split_keep sep cur (c # cs) =
     (if c = sep then cur # split_keep sep [c] cs else split_keep sep (cur @ [c]) cs)"

definition split_text_with_regex :: "str \<Rightarrow> nat \<Rightarrow> str list" where
  "split_text_with_regex text separator = filter (\<lambda>s. s \<noteq> []) (split_keep separator [] text)"

text \<open>The loop of \<open>_split_text\<close> over the pieces, on the state
  \<open>(_good_splits, final_chunks)\<close>; pieces are merged with the separator \<open>""\<close>.
  \<open>recur\<close> is \<open>self._split_text(s, new_separators)\<close>, or \<open>None\<close> when no separator
  is left.
  \<^verbatim>\<open>
    for s in splits:
        if self._length_function(s) < self._chunk_size:
            _good_splits.append(s)
        else:
            if _good_splits:
                merged_text = self._merge_splits(_good_splits, _separator)
                final_chunks.extend(merged_text)
                _good_splits = []
            if not new_separators:
                final_chunks.append(s)
            else:
                other_info = self._split_text(s, new_separators)
                final_chunks.extend(other_info)
    if _good_splits:
        merged_text = self._merge_splits(_good_splits, _separator)
        final_chunks.extend(merged_text)
    return final_chunks
  \<close>\<close>

definition flush_good ::
  "text_splitter \<Rightarrow> str list \<Rightarrow> str list \<Rightarrow> exn + str list" where
  "flush_good sp good_splits final_chunks =
     (if good_splits \<noteq> [] then
        (case merge_splits sp good_splits [] of
           Inl e \<Rightarrow> Inl e
         | Inr merged_text \<Rightarrow> Inr (final_chunks @ merged_text))
      else Inr final_chunks)"

definition split_step ::
  "text_splitter \<Rightarrow> (str \<Rightarrow> exn + str list) option \<Rightarrow> str \<Rightarrow> str list \<times> str list
     \<Rightarrow> exn + (str list \<times> str list)" where
  "split_step sp recur s st =
     (case st of (good_splits, final_chunks) \<Rightarrow>
      if int (length s) < the_chunk_size sp
      then Inr (good_splits @ [s], final_chunks)
      else
        (case flush_good sp good_splits final_chunks of
           Inl e \<Rightarrow> Inl e
         | Inr final_chunks1 \<Rightarrow>
             (case recur of
                None \<Rightarrow> Inr ([], final_chunks1 @ [s])
              | Some split_more \<Rightarrow>
                  (case split_more s of
                     Inl e \<Rightarrow> Inl e
                   | Inr other_info \<Rightarrow> Inr ([], final_chunks1 @ other_info)))))"

fun split_loop ::
  "text_splitter \<Rightarrow> (str \<Rightarrow> exn + str list) option \<Rightarrow> str list \<Rightarrow> str list \<times> str list
     \<Rightarrow> exn + str list" where
  "split_loop sp recur [] st =
     (case st of (good_splits, final_chunks) \<Rightarrow> flush_good sp good_splits final_chunks)"
| "split_loop sp recur (s # splits) st =
     (case split_step sp recur s st of
        Inl e \<Rightarrow> Inl e
      | Inr st1 \<Rightarrow> split_loop sp recur splits st1)"

text \<open>\<open>_split_text(text, separators)\<close>: the separator is the first of the list that
  occurs in the text, and the separators after it are left for the pieces that are too
  long; when none occurs it is the last of the list and no separator is left. The
  search and the recursion both walk down the list, so one recursion on the list does
  both. \<open>separators[-1]\<close> on the empty list raises.\<close>

fun split_text_sep :: "text_splitter \<Rightarrow> str \<Rightarrow> nat list \<Rightarrow> exn + str list" where
  "split_text_sep sp text [] = Inl IndexError"
| "split_text_sep sp text (s # rest) =
     (if s \<in> set text then
        split_loop sp
          (if rest = [] then None else Some (\<lambda>piece. split_text_sep sp piece rest))
          (split_text_with_regex text s) ([], [])
      else if rest = [] then
        split_loop sp None (split_text_with_regex text s) ([], [])
      else split_text_sep sp text rest)"

definition split_text :: "text_splitter \<Rightarrow> str \<Rightarrow> exn + str list" where
  "split_text sp text = split_text_sep sp text (the_separators sp)"

text \<open>
  \<^verbatim>\<open>
    def chunk_document(text, chunk_size=1000, chunk_overlap=300):
        text_splitter = RecursiveCharacterTextSplitter(
            chunk_size=chunk_size, chunk_overlap=chunk_overlap,
            length_function=len, separators=["\n", " ", "?", ".", "!"])
        chunks = text_splitter.split_text(text)
        return chunks
  \<close>\<close>

definition chunk_document :: "str \<Rightarrow> int \<Rightarrow> int \<Rightarrow> exn + str list" where
  "chunk_document text chunk_size chunk_overlap =
     (case RecursiveCharacterTextSplitter chunk_size chunk_overlap [10, 32, 63, 46, 33] of
        Inl e \<Rightarrow> Inl e
      | Inr text_splitter \<Rightarrow> split_text text_splitter text)"

section \<open>Properties\<close>

lemma rsplit_last_None: "rsplit_last sep s = None \<longleftrightarrow> sep \<notin> set s"
  by (induction s) (auto split: option.splits)

lemma rsplit_last_Some:
  "rsplit_last sep s = Some (a, b) \<longleftrightarrow> s = a @ sep # b \<and> sep \<notin> set b"
proof (induction s arbitrary: a b)
  case Nil
  then show ?case by simp
next
  case (Cons c cs)
  show ?case
  proof (cases "rsplit_last sep cs")
    case None
    then have "sep \<notin> set cs" by (simp add: rsplit_last_None)
    then show ?thesis using None
      by (auto simp: Cons_eq_append_conv)
  next
    case (Some p)
    obtain a' b' where p: "p = (a', b')" by (cases p)
    with Some Cons.IH [of a' b'] have cs: "cs = a' @ sep # b'" "sep \<notin> set b'" by auto
    show ?thesis
    proof
      assume "rsplit_last sep (c # cs) = Some (a, b)"
      with Some p have "a = c # a'" "b = b'" by auto
      with cs show "c # cs = a @ sep # b \<and> sep \<notin> set b" by simp
    next
      assume r: "c # cs = a @ sep # b \<and> sep \<notin> set b"
      then have "a \<noteq> []" using cs by (cases a) auto
      then obtain a2 where a: "a = c # a2" "cs = a2 @ sep # b" using r by (cases a) auto
      with r Cons.IH [of a2 b] have "rsplit_last sep cs = Some (a2, b)" by simp
      with Some p a show "rsplit_last sep (c # cs) = Some (a, b)" by simp
    qed
  qed
qed


subsection \<open>\<open>allowed_files\<close>\<close>

lemma rsplit1_dot:
  "py_index (rsplit1 sep s) (Suc 0) =
     (case rsplit_last sep s of None \<Rightarrow> Inl IndexError | Some (a, b) \<Rightarrow> Inr b)"
  by (simp add: py_index_def rsplit1_def split: option.splits)

text \<open>
  Claim C4. For every file name, \<open>allowed_files\<close> returns without raising, and it
  returns \<open>True\<close> exactly when the name contains a dot and the part after the last dot,
  lowered, is \<open>pdf\<close>, \<open>txt\<close> or \<open>pptx\<close>. A name without a dot has no such part, so the
  answer for it is \<open>False\<close>.
\<close>

theorem allowed_files_iff:
  "allowed_files filename =
     Inr (dot \<in> set filename \<and>
          (\<exists>pre suffix. filename = pre @ dot # suffix \<and> dot \<notin> set suffix \<and>
             lower suffix \<in> {ascii ''pdf'', ascii ''txt'', ascii ''pptx''}))"
proof (cases "rsplit_last dot filename")
  case None
  then have "dot \<notin> set filename" by (simp add: rsplit_last_None)
  then show ?thesis by (simp add: allowed_files_def)
next
  case (Some p)
  obtain a b where p: "p = (a, b)" by (cases p)
  with Some have cut: "filename = a @ dot # b" "dot \<notin> set b"
    by (simp_all add: rsplit_last_Some)
  have unique: "suffix = b"
    if "filename = pre @ dot # suffix" "dot \<notin> set suffix" for pre suffix
  proof -
    from that have "rsplit_last dot filename = Some (pre, suffix)"
      by (simp add: rsplit_last_Some)
    with Some p show ?thesis by simp
  qed
  have "(\<exists>pre suffix. filename = pre @ dot # suffix \<and> dot \<notin> set suffix \<and>
           lower suffix \<in> {ascii ''pdf'', ascii ''txt'', ascii ''pptx''})
        \<longleftrightarrow> lower b \<in> {ascii ''pdf'', ascii ''txt'', ascii ''pptx''}"
    using cut unique by blast
  moreover have "dot \<in> set filename" using cut by simp
  moreover have "allowed_files filename = Inr (lower b \<in> set allowed_files_list)"
    using Some p \<open>dot \<in> set filename\<close> by (simp add: allowed_files_def rsplit1_dot)
  ultimately show ?thesis by (simp add: allowed_files_list_def)
qed

theorem allowed_files_iff_witness:
  "allowed_files (ascii ''notes.PDF'') = Inr True
   \<and> allowed_files (ascii ''notesx'') = Inr False"
proof -
  have "ascii ''notes.PDF'' = ascii ''notes'' @ dot # ascii ''PDF''
        \<and> dot \<notin> set (ascii ''PDF'')
        \<and> lower (ascii ''PDF'') \<in> {ascii ''pdf'', ascii ''txt'', ascii ''pptx''}"
    by (simp add: ascii_def lower_def lower_cp_def)
  then have "\<exists>pre suffix. ascii ''notes.PDF'' = pre @ dot # suffix \<and> dot \<notin> set suffix \<and>
             lower suffix \<in> {ascii ''pdf'', ascii ''txt'', ascii ''pptx''}"
    by blast
  moreover have "dot \<in> set (ascii ''notes.PDF'')" "dot \<notin> set (ascii ''notesx'')"
    by (simp_all add: ascii_def)
  ultimately show ?thesis
    using allowed_files_iff [of "ascii ''notes.PDF''"] allowed_files_iff [of "ascii ''notesx''"]
    by simp
qed


subsection \<open>\<open>file_check_num\<close>\<close>

text \<open>
  Claim C8. For every uploaded file whose name contains no dot, \<open>file_check_num\<close>
  raises (an \<open>IndexError\<close>, from the indexing that precedes the \<open>try\<close>) instead of
  returning \<open>-1\<close>; the file is not touched and nothing is logged.
\<close>

theorem file_check_num_no_dot_raises:
  assumes "dot \<notin> set (name uploaded_file)"
  shows "file_check_num w uploaded_file = (Inl IndexError, uploaded_file, [])"
proof -
  from assms have "rsplit_last dot (name uploaded_file) = None"
    by (simp add: rsplit_last_None)
  then show ?thesis by (simp add: file_check_num_def rsplit1_dot)
qed

theorem file_check_num_no_dot_raises_witness:
  "dot \<notin> set (name (upload ''notes'' ''line1''))
   \<and> file_check_num sample_libs (upload ''notes'' ''line1'')
       = (Inl IndexError, upload ''notes'' ''line1'', [])"
proof -
  have h: "dot \<notin> set (name (upload ''notes'' ''line1''))"
    by (simp add: upload_def ascii_def)
  show ?thesis
    using h file_check_num_no_dot_raises [OF h, of sample_libs] by simp
qed




text \<open>What \<open>file_check_num\<close> does with an open \<open>.txt\<close> upload: the exception of the
  decoding is caught after the stream was read to its end.\<close>

lemma file_check_num_txt:
  assumes "rsplit_last dot (name f) = Some (stem, suffix)"
      and "lower suffix = ascii ''txt''"
      and "\<not> closed f"
  shows "file_check_num w f =
           (case decode (drop (pos f) (content f)) of
              Inl e \<Rightarrow>
                (Inr (- 1), f\<lparr>pos := max (pos f) (length (content f))\<rparr>,
                 [Error_checking_file (name f) e])
            | Inr s \<Rightarrow> (Inr (int (length (splitlines s))), f\<lparr>pos := 0\<rparr>, []))"
proof -
  have "ascii ''txt'' \<noteq> ascii ''pdf''" "ascii ''txt'' \<noteq> ascii ''pptx''"
    by (simp_all add: ascii_def)
  with assms show ?thesis
    by (simp add: file_check_num_def file_check_try_def rsplit1_dot read_def seek0_def
        split: sum.splits)
qed



text \<open>
  Claim C2, at a failing input. The upload \<open>a.txt\<close> holds the single byte \<open>0xFF\<close>,
  which is not UTF-8. \<open>file_check_num\<close> catches the \<open>UnicodeDecodeError\<close> and
  returns \<open>-1\<close>, but \<open>seek(0)\<close> is placed after the decoding inside the \<open>try\<close>, so the
  stream is left at its end (offset 1), not at offset 0.
\<close>

theorem file_check_num_failure_leaves_position:
  "file_check_num sample_libs (upload ''a.txt'' [CHR 0xFF])
     = (Inr (- 1), (upload ''a.txt'' [CHR 0xFF])\<lparr>pos := 1\<rparr>,
        [Error_checking_file (ascii ''a.txt'') UnicodeDecodeError])
   \<and> pos (fst (snd (file_check_num sample_libs (upload ''a.txt'' [CHR 0xFF])))) \<noteq> 0"
  by (simp add: file_check_num_def file_check_try_def rsplit1_def py_index_def upload_def
      ascii_def lower_def lower_cp_def read_def decode_def)

text \<open>The same on every supported type: when the parser or the decoder raises, the
  result is \<open>-1\<close> and the stream stays where \<open>read()\<close> left it.\<close>

lemma file_check_num_parse_failure:
  assumes "rsplit_last dot (name f) = Some (stem, suffix)"
      and "\<not> closed f"
      and "lower suffix = ascii ''pdf'' \<and> PdfReader w (drop (pos f) (content f)) = Inl e
           \<or> lower suffix = ascii ''pptx'' \<and> Presentation w (drop (pos f) (content f)) = Inl e
           \<or> lower suffix = ascii ''txt'' \<and> decode (drop (pos f) (content f)) = Inl e"
  shows "file_check_num w f =
           (Inr (- 1), f\<lparr>pos := max (pos f) (length (content f))\<rparr>,
            [Error_checking_file (name f) e])"
proof -
  have "ascii ''txt'' \<noteq> ascii ''pdf''" "ascii ''txt'' \<noteq> ascii ''pptx''"
       "ascii ''pptx'' \<noteq> ascii ''pdf''"
    by (simp_all add: ascii_def)
  with assms show ?thesis
    by (auto simp: file_check_num_def file_check_try_def rsplit1_dot read_def)
qed

subsection \<open>\<open>extract_contents_from_doc\<close>\<close>

text \<open>
  Claim C3. For every batch and every output directory, when the endpoint or the
  subscription key is missing from the environment (unset or empty),
  \<open>extract_contents_from_doc\<close> returns the empty list at once: it logs the
  configuration error and does nothing else, so no file object and no file of the file
  system is touched.
\<close>

theorem extract_without_credentials:
  assumes "falsy (getenv w (ascii ''DOCUMENT_INTELLIGENCE_ENDPOINT''))
           \<or> falsy (getenv w (ascii ''DOCUMENT_INTELLIGENCE_SUBSCRIPTION_KEY''))"
  shows "extract_contents_from_doc w st files temp_dir
           = (Inr [], st\<lparr>logged := logged st @ [Error_credentials_missing]\<rparr>)"
  using assms by (auto simp: extract_contents_from_doc_def log_add_def)

theorem extract_without_credentials_witness:
  "extract_contents_from_doc (sample_libs\<lparr>getenv := (\<lambda>k. None)\<rparr>)
       \<lparr>objs = (\<lambda>r. upload ''notes.txt'' ''line1''), fs = Map.empty, logged = []\<rparr>
       [0, 1] (ascii ''out'')
     = (Inr [],
        \<lparr>objs = (\<lambda>r. upload ''notes.txt'' ''line1''), fs = Map.empty,
         logged = [Error_credentials_missing]\<rparr>)"
proof -
  have "falsy (getenv (sample_libs\<lparr>getenv := (\<lambda>k. None)\<rparr>)
                 (ascii ''DOCUMENT_INTELLIGENCE_ENDPOINT''))"
    by (simp add: falsy_def)
  then show ?thesis
    using extract_without_credentials
      [of "sample_libs\<lparr>getenv := (\<lambda>k. None)\<rparr>"
          "\<lparr>objs = (\<lambda>r. upload ''notes.txt'' ''line1''), fs = Map.empty, logged = []\<rparr>"
          "[0, 1]" "ascii ''out''"]
    by simp
qed

lemma fold_append_concat:
  "fold (\<lambda>x acc. acc @ g x) xs init = init @ concat (map g xs)"
  by (induction xs arbitrary: init) simp_all

lemma pdf_text_concat:
  "pdf_text result = concat (map (\<lambda>page. concat (map (\<lambda>line. line @ [newline]) page)) result)"
  by (simp add: pdf_text_def fold_append_concat)

lemma pptx_text_concat:
  "pptx_text presentation =
     concat (map (\<lambda>slide. concat (map (\<lambda>shape. case shape of
                                                  Shape_with_text t \<Rightarrow> t @ [newline]
                                                | Shape_without_text \<Rightarrow> []) slide))
                 presentation)"
proof -
  have "(\<lambda>shape extracted_content.
           case shape of Shape_with_text t \<Rightarrow> extracted_content @ (t @ [newline])
                       | Shape_without_text \<Rightarrow> extracted_content)
        = (\<lambda>shape extracted_content.
             extracted_content @ (case shape of Shape_with_text t \<Rightarrow> t @ [newline]
                                              | Shape_without_text \<Rightarrow> []))"
    by (intro ext) (simp split: shape.splits)
  then show ?thesis by (simp add: pptx_text_def fold_append_concat)
qed

lemma ext_literals_distinct:
  "ascii ''.txt'' \<noteq> ascii ''.pdf''" "ascii ''.pptx'' \<noteq> ascii ''.pdf''"
  "ascii ''.pptx'' \<noteq> ascii ''.txt''"
  by (simp_all add: ascii_def)

text \<open>One turn of the loop on an open \<open>.txt\<close> upload whose bytes decode.\<close>

lemma process_file_txt:
  assumes "objs st file = f"
      and "splitext (secure_filename w (name f)) = (base, ext0)"
      and "lower ext0 = ascii ''.txt''"
      and "\<not> closed f"
      and "decode (drop (pos f) (content f)) = Inr text"
      and "open_error w (join temp_dir (base @ ascii ''_extracted.txt'')) = None"
      and "encodable text"
  shows "process_file w temp_dir st file =
           (Written (join temp_dir (base @ ascii ''_extracted.txt'')),
            st\<lparr>objs := (objs st)(file := f\<lparr>pos := max (pos f) (length (content f))\<rparr>),
               fs := (fs st)(join temp_dir (base @ ascii ''_extracted.txt'') \<mapsto> text),
               logged := logged st @ [Info_processing_txt (name f),
                           Info_saved (join temp_dir (base @ ascii ''_extracted.txt''))]\<rparr>)"
  using assms ext_literals_distinct
  by (simp add: process_file_def extract_text_def write_text_def read_def log_add_def Let_def)

text \<open>One turn of the loop on an open \<open>.pptx\<close> upload that parses.\<close>

lemma process_file_pptx:
  assumes "objs st file = f"
      and "splitext (secure_filename w (name f)) = (base, ext0)"
      and "lower ext0 = ascii ''.pptx''"
      and "\<not> closed f"
      and "Presentation w (content f) = Inr presentation"
      and "open_error w (join temp_dir (base @ ascii ''_extracted.txt'')) = None"
      and "encodable (pptx_text presentation)"
  shows "process_file w temp_dir st file =
           (Written (join temp_dir (base @ ascii ''_extracted.txt'')),
            st\<lparr>objs := (objs st)(file := f\<lparr>pos := zip_tell w (content f)\<rparr>),
               fs := (fs st)(join temp_dir (base @ ascii ''_extracted.txt'')
                          \<mapsto> pptx_text presentation),
               logged := logged st @ [Info_processing_pptx (name f),
                           Info_saved (join temp_dir (base @ ascii ''_extracted.txt''))]\<rparr>)"
  using assms ext_literals_distinct
  by (simp add: process_file_def extract_text_def write_text_def log_add_def Let_def)

text \<open>With both credentials set and the directory made, the call is the loop.\<close>

lemma extract_contents_from_doc_loop:
  assumes "\<not> falsy (getenv w (ascii ''DOCUMENT_INTELLIGENCE_ENDPOINT''))"
      and "\<not> falsy (getenv w (ascii ''DOCUMENT_INTELLIGENCE_SUBSCRIPTION_KEY''))"
      and "makedirs_error w temp_dir = None"
  shows "extract_contents_from_doc w st files temp_dir =
           (Inr (fst (extract_loop w temp_dir files
                        (log_add (Info_temp_dir_ready temp_dir) st) [])),
            snd (extract_loop w temp_dir files
                   (log_add (Info_temp_dir_ready temp_dir) st) []))"
  using assms by (simp add: extract_contents_from_doc_def split: prod.splits)

lemma extract_loop_single:
  "extract_loop w temp_dir [file] st [] =
     (case process_file w temp_dir st file of
        (Written file_path, st') \<Rightarrow> ([file_path], st')
      | (Skipped, st') \<Rightarrow> ([], st')
      | (Failed e, st') \<Rightarrow> ([], st'))"
  by (simp split: prod.splits outcome.splits)

text \<open>
  Claim C6. A batch of one open \<open>.txt\<close> upload, read from its start, whose bytes decode
  to \<open>line1\nline2\nline3\<close>: \<open>file_check_num\<close> returns \<open>3\<close> and leaves the file as
  it was, and \<open>extract_contents_from_doc\<close> returns the one path
  \<open><temp_dir>/<base>_extracted.txt\<close>, where the file system then holds exactly the
  decoded text. The environment has both credentials and lets the directory be made
  and the file be opened.
\<close>

theorem txt_upload_end_to_end:
  assumes "\<not> falsy (getenv w (ascii ''DOCUMENT_INTELLIGENCE_ENDPOINT''))"
      and "\<not> falsy (getenv w (ascii ''DOCUMENT_INTELLIGENCE_SUBSCRIPTION_KEY''))"
      and "makedirs_error w temp_dir = None"
      and "open_error w (join temp_dir (base @ ascii ''_extracted.txt'')) = None"
      and "objs st file = f" and "\<not> closed f" and "pos f = 0"
      and "decode (content f) = Inr (ascii ''line1\<newline>line2\<newline>line3'')"
      and "rsplit_last dot (name f) = Some (stem, suffix)"
      and "lower suffix = ascii ''txt''"
      and "splitext (secure_filename w (name f)) = (base, ext0)"
      and "lower ext0 = ascii ''.txt''"
  shows "file_check_num w f = (Inr 3, f, [])
         \<and> fst (extract_contents_from_doc w st [file] temp_dir)
             = Inr [join temp_dir (base @ ascii ''_extracted.txt'')]
         \<and> fs (snd (extract_contents_from_doc w st [file] temp_dir))
              (join temp_dir (base @ ascii ''_extracted.txt''))
             = Some (ascii ''line1\<newline>line2\<newline>line3'')"
proof -
  let ?text = "ascii ''line1\<newline>line2\<newline>line3''"
  let ?st1 = "log_add (Info_temp_dir_ready temp_dir) st"
  have lines: "int (length (splitlines ?text)) = 3"
    by (simp add: splitlines_def ascii_def is_linebreak_def)
  have same: "f\<lparr>pos := 0\<rparr> = f"
    using \<open>pos f = 0\<close> by (cases f) simp
  have count: "file_check_num w f = (Inr 3, f, [])"
    using assms(6-10) lines same by (simp add: file_check_num_txt)
  have enc: "encodable ?text"
    by (simp add: encodable_def ascii_def)
  have "objs ?st1 file = f" "fs ?st1 = fs st"
    using assms(5) by (simp_all add: log_add_def)
  moreover have "decode (drop (pos f) (content f)) = Inr ?text"
    using assms(7,8) by simp
  ultimately have turn:
    "process_file w temp_dir ?st1 file =
       (Written (join temp_dir (base @ ascii ''_extracted.txt'')),
        ?st1\<lparr>objs := (objs ?st1)(file := f\<lparr>pos := max (pos f) (length (content f))\<rparr>),
             fs := (fs ?st1)(join temp_dir (base @ ascii ''_extracted.txt'') \<mapsto> ?text),
             logged := logged ?st1 @ [Info_processing_txt (name f),
                         Info_saved (join temp_dir (base @ ascii ''_extracted.txt''))]\<rparr>)"
    using assms(4,6,11,12) enc by (intro process_file_txt) simp_all
  have "fst (extract_contents_from_doc w st [file] temp_dir)
          = Inr [join temp_dir (base @ ascii ''_extracted.txt'')]"
       "fs (snd (extract_contents_from_doc w st [file] temp_dir))
           (join temp_dir (base @ ascii ''_extracted.txt'')) = Some ?text"
    using assms(1-3) turn
    by (simp_all add: extract_contents_from_doc_loop extract_loop_single)
  with count show ?thesis by simp
qed

lemma sample_libs_simps:
  "getenv sample_libs k = Some (ascii ''configured'')"
  "secure_filename sample_libs s = s"
  "makedirs_error sample_libs d = None"
  "open_error sample_libs p = None"
  by (simp_all add: sample_libs_def)

lemma falsy_configured: "\<not> falsy (Some (ascii ''configured''))"
  by (simp add: falsy_def ascii_def)

lemma splitext_notes_txt: "splitext (ascii ''notes.txt'') = (ascii ''notes'', ascii ''.txt'')"
  by (simp add: splitext_def rfind_def ascii_def)

lemma join_out_notes:
  "join (ascii ''out'') (ascii ''notes'' @ ascii ''_extracted.txt'')
     = ascii ''out/notes_extracted.txt''"
  by (simp add: join_def ascii_def)

theorem txt_upload_end_to_end_witness:
  "file_check_num sample_libs (upload ''notes.txt'' ''line1\<newline>line2\<newline>line3'')
     = (Inr 3, upload ''notes.txt'' ''line1\<newline>line2\<newline>line3'', [])
   \<and> fst (extract_contents_from_doc sample_libs
            (fresh_state (upload ''notes.txt'' ''line1\<newline>line2\<newline>line3''))
            [0] (ascii ''out''))
       = Inr [ascii ''out/notes_extracted.txt'']
   \<and> fs (snd (extract_contents_from_doc sample_libs
                (fresh_state (upload ''notes.txt'' ''line1\<newline>line2\<newline>line3''))
                [0] (ascii ''out'')))
        (ascii ''out/notes_extracted.txt'')
       = Some (ascii ''line1\<newline>line2\<newline>line3'')"
proof -
  let ?f = "upload ''notes.txt'' ''line1\<newline>line2\<newline>line3''"
  have f: "objs (fresh_state ?f) 0 = ?f" "\<not> closed ?f" "pos ?f = 0"
    by (simp_all add: fresh_state_def upload_def)
  have d: "decode (content ?f) = Inr (ascii ''line1\<newline>line2\<newline>line3'')"
    by (simp add: upload_def decode_def ascii_def)
  have n: "rsplit_last dot (name ?f) = Some (ascii ''notes'', ascii ''txt'')"
          "lower (ascii ''txt'') = ascii ''txt''"
    by (simp_all add: upload_def ascii_def lower_def lower_cp_def)
  have e: "splitext (secure_filename sample_libs (name ?f)) = (ascii ''notes'', ascii ''.txt'')"
          "lower (ascii ''.txt'') = ascii ''.txt''"
    by (simp_all add: sample_libs_simps upload_def splitext_notes_txt)
       (simp add: ascii_def lower_def lower_cp_def)
  show ?thesis
    using txt_upload_end_to_end
      [of sample_libs "ascii ''out''" "ascii ''notes''" "fresh_state ?f" 0 ?f
          "ascii ''notes''" "ascii ''txt''" "ascii ''.txt''",
       OF _ _ _ _ f d n e]
    by (simp add: sample_libs_simps falsy_configured join_out_notes)
qed

text \<open>
  Claim C7. For every open \<open>.pptx\<close> upload that parses and whose artifact can be
  written, the turn of the loop writes, under \<open><temp_dir>/<base>_extracted.txt\<close>, the
  texts of the shapes that have a text, each followed by a newline, slide after slide
  and within a slide shape after shape; a batch of this one upload returns that path.
  For the deck of two slides with the text shapes \<open>A\<close> and \<open>B\<close> the artifact is
  \<open>A\nB\n\<close>.
\<close>

theorem pptx_upload_artifact:
  assumes "\<not> falsy (getenv w (ascii ''DOCUMENT_INTELLIGENCE_ENDPOINT''))"
      and "\<not> falsy (getenv w (ascii ''DOCUMENT_INTELLIGENCE_SUBSCRIPTION_KEY''))"
      and "makedirs_error w temp_dir = None"
      and "open_error w (join temp_dir (base @ ascii ''_extracted.txt'')) = None"
      and "objs st file = f" and "\<not> closed f"
      and "splitext (secure_filename w (name f)) = (base, ext0)"
      and "lower ext0 = ascii ''.pptx''"
      and "Presentation w (content f) = Inr presentation"
      and "artifact =
             concat (map (\<lambda>slide. concat (map (\<lambda>shape. case shape of
                                                          Shape_with_text t \<Rightarrow> t @ [newline]
                                                        | Shape_without_text \<Rightarrow> []) slide))
                         presentation)"
      and "encodable artifact"
  shows "fst (process_file w temp_dir st file)
           = Written (join temp_dir (base @ ascii ''_extracted.txt''))
         \<and> fs (snd (process_file w temp_dir st file))
              (join temp_dir (base @ ascii ''_extracted.txt'')) = Some artifact
         \<and> fst (extract_contents_from_doc w st [file] temp_dir)
             = Inr [join temp_dir (base @ ascii ''_extracted.txt'')]
         \<and> fs (snd (extract_contents_from_doc w st [file] temp_dir))
              (join temp_dir (base @ ascii ''_extracted.txt'')) = Some artifact"
proof -
  let ?st1 = "log_add (Info_temp_dir_ready temp_dir) st"
  let ?path = "join temp_dir (base @ ascii ''_extracted.txt'')"
  have written: "pptx_text presentation = artifact"
    using assms(10) by (simp add: pptx_text_concat)
  have turn: "fst (process_file w temp_dir s file) = Written ?path
              \<and> fs (snd (process_file w temp_dir s file)) ?path = Some artifact"
    if "objs s file = f" for s
    using assms(11) written
      process_file_pptx [OF that assms(7) assms(8) assms(6) assms(9) assms(4)]
    by simp
  have "objs ?st1 file = f"
    using assms(5) by (simp add: log_add_def)
  from turn [OF this]
  have "fst (extract_contents_from_doc w st [file] temp_dir) = Inr [?path]"
       "fs (snd (extract_contents_from_doc w st [file] temp_dir)) ?path = Some artifact"
    using assms(1-3)
    by (auto simp: extract_contents_from_doc_loop extract_loop_single
             split: prod.splits outcome.splits)
  with turn [OF assms(5)] show ?thesis by simp
qed

theorem pptx_upload_artifact_witness:
  "fst (extract_contents_from_doc
          (sample_libs\<lparr>Presentation :=
             (\<lambda>b. Inr [[Shape_with_text (ascii ''A'')], [Shape_with_text (ascii ''B'')]])\<rparr>)
          (fresh_state (upload ''deck.pptx'' ''PK'')) [0] (ascii ''out''))
     = Inr [ascii ''out/deck_extracted.txt'']
   \<and> fs (snd (extract_contents_from_doc
          (sample_libs\<lparr>Presentation :=
             (\<lambda>b. Inr [[Shape_with_text (ascii ''A'')], [Shape_with_text (ascii ''B'')]])\<rparr>)
          (fresh_state (upload ''deck.pptx'' ''PK'')) [0] (ascii ''out'')))
        (ascii ''out/deck_extracted.txt'')
     = Some (ascii ''A\<newline>B\<newline>'')"
proof -
  let ?w = "sample_libs\<lparr>Presentation :=
              (\<lambda>b. Inr [[Shape_with_text (ascii ''A'')], [Shape_with_text (ascii ''B'')]])\<rparr>"
  let ?f = "upload ''deck.pptx'' ''PK''"
  have c: "\<not> falsy (getenv ?w (ascii ''DOCUMENT_INTELLIGENCE_ENDPOINT''))"
          "\<not> falsy (getenv ?w (ascii ''DOCUMENT_INTELLIGENCE_SUBSCRIPTION_KEY''))"
          "makedirs_error ?w (ascii ''out'') = None"
          "open_error ?w (join (ascii ''out'') (ascii ''deck'' @ ascii ''_extracted.txt'')) = None"
    by (simp_all add: sample_libs_simps falsy_configured)
  have f: "objs (fresh_state ?f) 0 = ?f" "\<not> closed ?f"
    by (simp_all add: fresh_state_def upload_def)
  have e: "splitext (secure_filename ?w (name ?f)) = (ascii ''deck'', ascii ''.pptx'')"
          "lower (ascii ''.pptx'') = ascii ''.pptx''"
    by (simp_all add: sample_libs_simps upload_def splitext_def rfind_def ascii_def
          lower_def lower_cp_def)
  have p: "Presentation ?w (content ?f)
             = Inr [[Shape_with_text (ascii ''A'')], [Shape_with_text (ascii ''B'')]]"
    by simp
  have a: "ascii ''A\<newline>B\<newline>'' =
             concat (map (\<lambda>slide. concat (map (\<lambda>shape. case shape of
                                                          Shape_with_text t \<Rightarrow> t @ [newline]
                                                        | Shape_without_text \<Rightarrow> []) slide))
                         [[Shape_with_text (ascii ''A'')], [Shape_with_text (ascii ''B'')]])"
          "encodable (ascii ''A\<newline>B\<newline>'')"
    by (simp_all add: ascii_def encodable_def)
  have j: "join (ascii ''out'') (ascii ''deck'' @ ascii ''_extracted.txt'')
             = ascii ''out/deck_extracted.txt''"
    by (simp add: join_def ascii_def)
  show ?thesis
    using pptx_upload_artifact [OF c f e p a] by (simp add: j)
qed

subsection \<open>The loop over the batch\<close>

lemma write_text_dom:
  "dom files \<subseteq> dom (snd (write_text w files file_path s))"
  "fst (write_text w files file_path s) = None \<Longrightarrow>
     snd (write_text w files file_path s) file_path = Some s"
  by (auto simp: write_text_def split: option.splits)

lemma extract_text_fs: "fs (snd (extract_text w st r ext)) = fs st"
  by (simp add: extract_text_def log_add_def read_def Let_def split: sum.splits)

text \<open>A turn of the loop, by the result of the dispatch.\<close>

lemma process_file_eq:
  assumes "extract_text w st r (lower (snd (splitext (secure_filename w (name (objs st r))))))
             = (x, st1)"
  shows "process_file w temp_dir st r =
     (case x of
        Inl e \<Rightarrow> (Failed e, log_add (Error_processing_file (name (objs st r)) e) st1)
      | Inr None \<Rightarrow> (Skipped, st1)
      | Inr (Some extracted_content) \<Rightarrow>
          (let file_path = join temp_dir
                 (fst (splitext (secure_filename w (name (objs st r)))) @ ascii ''_extracted.txt'')
           in case fst (write_text w (fs st1) file_path extracted_content) of
                Some e \<Rightarrow>
                  (Failed e, log_add (Error_processing_file (name (objs st r)) e)
                     (st1\<lparr>fs := snd (write_text w (fs st1) file_path extracted_content)\<rparr>))
              | None \<Rightarrow>
                  (Written file_path, log_add (Info_saved file_path)
                     (st1\<lparr>fs := snd (write_text w (fs st1) file_path extracted_content)\<rparr>))))"
  using assms
  by (simp add: process_file_def Let_def case_prod_beta split: sum.splits option.splits)

lemma process_file_dom:
  "dom (fs st) \<subseteq> dom (fs (snd (process_file w temp_dir st r)))"
proof -
  obtain x st1 where x: "extract_text w st r
      (lower (snd (splitext (secure_filename w (name (objs st r)))))) = (x, st1)"
    by (cases "extract_text w st r
      (lower (snd (splitext (secure_filename w (name (objs st r))))))")
  then have "fs st1 = fs st"
    using extract_text_fs [of w st r] by (metis snd_conv)
  then show ?thesis
    using write_text_dom(1) [of "fs st" w]
    by (auto simp: process_file_eq [OF x] Let_def log_add_def
             split: sum.splits option.splits)
qed

lemma process_file_written:
  assumes "fst (process_file w temp_dir st r) = Written file_path"
  shows "file_path \<in> dom (fs (snd (process_file w temp_dir st r)))"
proof -
  obtain x st1 where x: "extract_text w st r
      (lower (snd (splitext (secure_filename w (name (objs st r)))))) = (x, st1)"
    by (cases "extract_text w st r
      (lower (snd (splitext (secure_filename w (name (objs st r))))))")
  show ?thesis
    using assms write_text_dom(2) [of w "fs st1"]
    by (auto simp: process_file_eq [OF x] Let_def log_add_def
             split: sum.splits option.splits)
qed

lemma process_file_skipped_iff:
  "fst (process_file w temp_dir st r) = Skipped \<longleftrightarrow>
     lower (snd (splitext (secure_filename w (name (objs st r)))))
       \<notin> {ascii ''.pdf'', ascii ''.txt'', ascii ''.pptx''}"
proof -
  obtain x st1 where x: "extract_text w st r
      (lower (snd (splitext (secure_filename w (name (objs st r)))))) = (x, st1)"
    by (cases "extract_text w st r
      (lower (snd (splitext (secure_filename w (name (objs st r))))))")
  have "x = Inr None \<longleftrightarrow>
     lower (snd (splitext (secure_filename w (name (objs st r)))))
       \<notin> {ascii ''.pdf'', ascii ''.txt'', ascii ''.pptx''}"
    using x by (auto simp: extract_text_def Let_def read_def split: sum.splits if_splits)
  then show ?thesis
    by (auto simp: process_file_eq [OF x] Let_def split: sum.splits option.splits)
qed

lemma extract_loop_paths:
  "fst (extract_loop w temp_dir rs st acc)
     = acc @ List.map_filter written_path (outcomes w temp_dir rs st)"
proof (induction rs arbitrary: st acc)
  case Nil
  then show ?case by simp
next
  case (Cons r0 rs)
  obtain x st' where "process_file w temp_dir st r0 = (x, st')"
    by (cases "process_file w temp_dir st r0")
  then show ?case
    using Cons.IH by (cases x) simp_all
qed

lemma outcomes_length: "length (outcomes w temp_dir rs st) = length rs"
  by (induction rs arbitrary: st) (simp_all split: prod.splits)

lemma extract_loop_dom:
  "dom (fs st) \<subseteq> dom (fs (snd (extract_loop w temp_dir rs st acc)))
   \<and> set (List.map_filter written_path (outcomes w temp_dir rs st))
       \<subseteq> dom (fs (snd (extract_loop w temp_dir rs st acc)))"
proof (induction rs arbitrary: st acc)
  case Nil
  then show ?case by simp
next
  case (Cons r0 rs)
  obtain x st' where p: "process_file w temp_dir st r0 = (x, st')"
    by (cases "process_file w temp_dir st r0")
  have mono: "dom (fs st) \<subseteq> dom (fs st')"
    using process_file_dom [of st w temp_dir r0] p by simp
  have here: "x = Written file_path \<Longrightarrow> file_path \<in> dom (fs st')" for file_path
    using process_file_written [of w temp_dir st r0 file_path] p by simp
  show ?case
  proof (cases x)
    case (Written file_path)
    with p mono here Cons.IH [of st' "acc @ [file_path]"] show ?thesis
      by auto
  next
    case Skipped
    with p mono Cons.IH [of st' acc] show ?thesis
      by auto
  next
    case (Failed e)
    with p mono Cons.IH [of st' acc] show ?thesis
      by auto
  qed
qed

lemma map_filter_length:
  "length (List.map_filter f xs) = length xs - length (filter (\<lambda>x. f x = None) xs)"
proof (induction xs)
  case Nil
  then show ?case by simp
next
  case (Cons x xs)
  have "length (filter (\<lambda>x. f x = None) xs) \<le> length xs" by simp
  with Cons show ?case
    by (cases "f x") (simp_all add: Suc_diff_le)
qed


text \<open>
  Claim C1. With both credentials set (and the output directory made), every file of
  the batch gets its turn of the loop, whatever the turns before it did, and the call
  returns exactly the paths of the turns that wrote their artifact, in the order of
  the batch: a turn that skips its file or fails adds nothing. So for \<open>N\<close> files of
  which \<open>K\<close> are skipped or fail the list has length \<open>N - K\<close>, and every path of the
  list is a file of the file system when the call returns.
\<close>

theorem extract_returns_written_paths:
  assumes "\<not> falsy (getenv w (ascii ''DOCUMENT_INTELLIGENCE_ENDPOINT''))"
      and "\<not> falsy (getenv w (ascii ''DOCUMENT_INTELLIGENCE_SUBSCRIPTION_KEY''))"
      and "makedirs_error w temp_dir = None"
      and "outs = outcomes w temp_dir files (log_add (Info_temp_dir_ready temp_dir) st)"
  shows "fst (extract_contents_from_doc w st files temp_dir)
           = Inr (List.map_filter written_path outs)
         \<and> length outs = length files
         \<and> length (List.map_filter written_path outs)
             = length files - length (filter (\<lambda>r. written_path r = None) outs)
         \<and> set (List.map_filter written_path outs)
             \<subseteq> dom (fs (snd (extract_contents_from_doc w st files temp_dir)))"
proof -
  have n: "length outs = length files"
    using assms(4) by (simp add: outcomes_length)
  have "length (List.map_filter written_path outs)
          = length outs - length (filter (\<lambda>r. written_path r = None) outs)"
    by (rule map_filter_length)
  with n show ?thesis
    using assms extract_loop_dom [of "log_add (Info_temp_dir_ready temp_dir) st" w temp_dir files "[]"]
    by (simp add: extract_contents_from_doc_loop extract_loop_paths)
qed

lemma sample_outcomes:
  "outcomes sample_libs (ascii ''out'') [0, 1, 2, 3]
     (log_add (Info_temp_dir_ready (ascii ''out'')) (\<lparr>objs = sample_batch, fs = Map.empty, logged = []\<rparr>))
   = [Written (ascii ''out/notes_extracted.txt''), Skipped, Failed UnicodeDecodeError,
      Written (ascii ''out/b_extracted.txt'')]"
  by (simp add: process_file_def extract_text_def write_text_def sample_libs_def sample_batch_def
      upload_def log_add_def splitext_def rfind_def join_def lower_def lower_cp_def read_def
      decode_def encodable_def ascii_def Let_def)


theorem extract_returns_written_paths_witness:
  "fst (extract_contents_from_doc sample_libs
          \<lparr>objs = sample_batch, fs = Map.empty, logged = []\<rparr> [0, 1, 2, 3] (ascii ''out''))
     = Inr [ascii ''out/notes_extracted.txt'', ascii ''out/b_extracted.txt'']
   \<and> length [ascii ''out/notes_extracted.txt'', ascii ''out/b_extracted.txt'']
       = length [0 :: ref, 1, 2, 3] - 2
   \<and> ascii ''out/b_extracted.txt''
       \<in> dom (fs (snd (extract_contents_from_doc sample_libs
             \<lparr>objs = sample_batch, fs = Map.empty, logged = []\<rparr> [0, 1, 2, 3] (ascii ''out''))))"
proof -
  have c: "\<not> falsy (getenv sample_libs (ascii ''DOCUMENT_INTELLIGENCE_ENDPOINT''))"
          "\<not> falsy (getenv sample_libs (ascii ''DOCUMENT_INTELLIGENCE_SUBSCRIPTION_KEY''))"
          "makedirs_error sample_libs (ascii ''out'') = None"
    by (simp_all add: sample_libs_simps falsy_configured)
  note t = extract_returns_written_paths [OF c sample_outcomes [symmetric]]
  from t have "fst (extract_contents_from_doc sample_libs
          \<lparr>objs = sample_batch, fs = Map.empty, logged = []\<rparr> [0, 1, 2, 3] (ascii ''out''))
     = Inr [ascii ''out/notes_extracted.txt'', ascii ''out/b_extracted.txt'']"
    by simp
  moreover from t have "ascii ''out/b_extracted.txt''
       \<in> dom (fs (snd (extract_contents_from_doc sample_libs
             \<lparr>objs = sample_batch, fs = Map.empty, logged = []\<rparr> [0, 1, 2, 3] (ascii ''out''))))"
    by simp
  ultimately show ?thesis by simp
qed

subsection \<open>\<open>chunk_document\<close>\<close>

lemma split_keep_concat: "concat (split_keep sep cur text) = cur @ text"
  by (induction "text" arbitrary: cur) simp_all

lemma concat_filter_nonempty: "concat (filter (\<lambda>s. s \<noteq> []) xs) = concat xs"
  by (induction xs) simp_all

lemma split_text_with_regex_concat: "concat (split_text_with_regex text sep) = text"
  by (simp add: split_text_with_regex_def concat_filter_nonempty split_keep_concat)

lemma length_le_concat: "x \<in> set xs \<Longrightarrow> length x \<le> length (concat xs)"
  by (induction xs) auto

lemma split_text_with_regex_short:
  "p \<in> set (split_text_with_regex text sep) \<Longrightarrow> length p \<le> length text"
  using length_le_concat [of p "split_text_with_regex text sep"]
  by (simp add: split_text_with_regex_concat)

lemma str_join_empty: "str_join [] xs = concat xs"
proof (induction xs)
  case Nil
  then show ?case by simp
next
  case (Cons x xs)
  then show ?case by (cases xs) simp_all
qed

lemma merge_loop_fits:
  "int (length (concat (current_doc @ xs))) \<le> the_chunk_size sp \<Longrightarrow>
   total_len = int (length (concat current_doc)) \<Longrightarrow>
   merge_loop sp [] xs (docs, current_doc, total_len) =
     Inr (case join_docs (current_doc @ xs) [] of None \<Rightarrow> docs | Some doc \<Rightarrow> docs @ [doc])"
proof (induction xs arbitrary: current_doc total_len)
  case Nil
  then show ?case by simp
next
  case (Cons d xs)
  have step: "merge_step sp [] d (docs, current_doc, total_len)
                = Inr (docs, current_doc @ [d], total_len + int (length d))"
    using Cons.prems by (simp add: merge_step_def)
  show ?case
    using Cons.IH [of "current_doc @ [d]" "total_len + int (length d)"] Cons.prems step
    by simp
qed

lemma merge_splits_fits:
  "int (length (concat xs)) \<le> the_chunk_size sp \<Longrightarrow>
   merge_splits sp xs [] = Inr (if strip (concat xs) = [] then [] else [strip (concat xs)])"
  by (simp add: merge_splits_def merge_loop_fits join_docs_def str_join_empty Let_def)

lemma split_loop_all_good:
  "\<forall>s \<in> set ss. int (length s) < the_chunk_size sp \<Longrightarrow>
   split_loop sp recur ss (good_splits, final_chunks) = flush_good sp (good_splits @ ss) final_chunks"
  by (induction ss arbitrary: good_splits) (simp_all add: split_step_def)

lemma strip_empty: "strip [] = []"
  by (simp add: strip_def)

lemma split_short:
  assumes "int (length text) < the_chunk_size sp"
  shows "split_loop sp recur (split_text_with_regex text sep) ([], [])
           = Inr (if strip text = [] then [] else [strip text])"
proof -
  let ?ps = "split_text_with_regex text sep"
  have "\<forall>s \<in> set ?ps. int (length s) < the_chunk_size sp"
    using assms split_text_with_regex_short [of _ "text" sep] by fastforce
  then have "split_loop sp recur ?ps ([], []) = flush_good sp ?ps []"
    using split_loop_all_good [of ?ps sp recur "[]" "[]"] by simp
  moreover have "flush_good sp ?ps [] = Inr (if strip text = [] then [] else [strip text])"
  proof (cases "?ps = []")
    case True
    then have "text = []"
      using split_text_with_regex_concat [of "text" sep] by simp
    with True show ?thesis by (simp add: flush_good_def strip_empty)
  next
    case False
    have "int (length (concat ?ps)) \<le> the_chunk_size sp"
      using assms by (simp add: split_text_with_regex_concat)
    from merge_splits_fits [OF this] False show ?thesis
      by (simp add: flush_good_def split_text_with_regex_concat)
  qed
  ultimately show ?thesis by simp
qed

lemma split_text_sep_short:
  "int (length text) < the_chunk_size sp \<Longrightarrow> seps \<noteq> [] \<Longrightarrow>
   split_text_sep sp text seps = Inr (if strip text = [] then [] else [strip text])"
proof (induction seps)
  case Nil
  then show ?case by simp
next
  case (Cons s rest)
  then show ?case
    by (cases "rest = []") (simp_all add: split_short)
qed

lemma strip_id:
  assumes "text \<noteq> []" "\<not> is_space (hd text)" "\<not> is_space (last text)"
  shows "strip text = text"
proof -
  have "dropWhile is_space text = text"
    using assms(1,2) by (cases "text") simp_all
  moreover have "dropWhile is_space (rev text) = rev text"
    using assms(1,3) by (cases "rev text") (simp_all add: hd_rev [symmetric])
  ultimately show ?thesis by (simp add: strip_def)
qed

text \<open>
  Claim C5, as the code has it. For every text shorter than \<open>chunk_size\<close>, with
  \<open>0 \<le> chunk_overlap \<le> chunk_size\<close>, \<open>chunk_document\<close> returns the text stripped of
  leading and trailing whitespace as its only chunk, and no chunk at all when nothing
  is left of it; so a text that is not empty and neither starts nor ends with
  whitespace comes back as the one chunk equal to the input.
\<close>

theorem chunk_document_short:
  assumes "int (length text) < chunk_size"
      and "0 \<le> chunk_overlap" and "chunk_overlap \<le> chunk_size"
  shows "chunk_document text chunk_size chunk_overlap
           = Inr (if strip text = [] then [] else [strip text])
         \<and> (text \<noteq> [] \<and> \<not> is_space (hd text) \<and> \<not> is_space (last text) \<longrightarrow>
              chunk_document text chunk_size chunk_overlap = Inr [text])"
proof -
  have "chunk_document text chunk_size chunk_overlap
           = Inr (if strip text = [] then [] else [strip text])"
    using assms
      split_text_sep_short
        [of "text" "\<lparr>the_chunk_size = chunk_size, the_chunk_overlap = chunk_overlap,
                     the_separators = [10, 32, 63, 46, 33]\<rparr>" "[10, 32, 63, 46, 33]"]
    by (simp add: chunk_document_def RecursiveCharacterTextSplitter_def split_text_def
        del: split_text_sep.simps)
  then show ?thesis by (auto simp: strip_id)
qed

theorem chunk_document_short_witness:
  "chunk_document (ascii ''hello world'') 1000 300 = Inr [ascii ''hello world'']
   \<and> chunk_document (ascii '' hello '') 1000 300 = Inr [ascii ''hello'']"
proof -
  have h: "int (length (ascii ''hello world'')) < 1000"
          "int (length (ascii '' hello '')) < 1000" "(0 :: int) \<le> 300" "(300 :: int) \<le> 1000"
    by (simp_all add: ascii_def)
  have s: "strip (ascii ''hello world'') = ascii ''hello world''"
          "strip (ascii '' hello '') = ascii ''hello''"
          "ascii ''hello world'' \<noteq> []" "ascii ''hello'' \<noteq> []"
    by (simp_all add: strip_def is_space_def ascii_def)
  show ?thesis
    using chunk_document_short [OF h(1) h(3) h(4)] chunk_document_short [OF h(2) h(3) h(4)] s
    by simp
qed

text \<open>
  Claim C5 as stated fails at the empty text (and at any text with whitespace at an
  end): the empty text is shorter than a chunk size of 1000, and \<open>chunk_document\<close>
  returns no chunk for it, not the one chunk \<open>""\<close>.
\<close>

theorem chunk_document_empty_counterexample:
  "int (length ([] :: str)) < 1000
   \<and> chunk_document [] 1000 300 = Inr []
   \<and> chunk_document [] 1000 300 \<noteq> Inr [[]]
   \<and> int (length (ascii '' a'')) < 1000
   \<and> chunk_document (ascii '' a'') 1000 300 = Inr [ascii ''a'']
   \<and> chunk_document (ascii '' a'') 1000 300 \<noteq> Inr [ascii '' a'']"
  by (simp add: chunk_document_def RecursiveCharacterTextSplitter_def split_text_def
      split_text_with_regex_def split_step_def flush_good_def merge_splits_def merge_step_def
      join_docs_def strip_def is_space_def ascii_def)

text \<open>
  Claim C10. For every text, when \<open>chunk_overlap\<close> is larger than \<open>chunk_size\<close>,
  \<open>chunk_document\<close> raises the \<open>ValueError\<close> of the splitter's constructor and returns
  no chunk sequence.
\<close>

theorem chunk_document_overlap_larger_raises:
  assumes "chunk_overlap > chunk_size"
  shows "chunk_document text chunk_size chunk_overlap = Inl ValueError"
  using assms by (simp add: chunk_document_def RecursiveCharacterTextSplitter_def)

theorem chunk_document_overlap_larger_raises_witness:
  "(5 :: int) > 3 \<and> chunk_document (ascii ''hello'') 3 5 = Inl ValueError"
proof -
  have h: "(5 :: int) > 3" by simp
  show ?thesis
    using h chunk_document_overlap_larger_raises [OF h, of "ascii ''hello''"] by simp
qed

end
